theory Spec2Isabelle
  imports Main
begin

section \<open>The connection server of wsh: \<open>cmd/wsh/cmd/wshcmd-connserver.go\<close>\<close>

text \<open>
  The file is glue code: every function is a sequence of calls into the packages
  \<open>wshutil\<close>, \<open>packetparser\<close>, \<open>wavebase\<close>, \<open>net\<close> and \<open>os\<close>. The model records each
  such call as an \<open>event\<close>, in the order in which the code makes it, and takes what the
  call returns from an environment. Go errors are their messages (strings); a result
  \<open>(v, err)\<close> is a sum with the error on the left.
\<close>

subsection \<open>Data\<close>

type_synonym route_id = string

definition newline :: string where
  "newline = [CHR 0x0A]"

text \<open>\<open>wshutil.RpcMessage\<close>, with the four fields the file sets.\<close>

record rpc_message =
  Command :: string
  Data_RouteId :: string
  Source :: string
  AuthToken :: string

text \<open>\<open>wshrpc.RpcContext\<close>: only its field \<open>Conn\<close> is read here.\<close>

record rpc_context =
  Conn :: string

text \<open>
  What \<open>InjectMessage\<close> and \<open>WritePacket\<close> are given: bytes read from a channel, or the
  result of \<open>json.Marshal\<close> on a message (kept as the message it encodes).
\<close>

datatype payload = Bytes string | Marshal rpc_message

datatype destination = RpcProxy | ConnServerClient

datatype goroutine = GoParse | GoWritePackets | GoDrainRawCh | GoInjectUpstream | GoRunListener nat

datatype event =
    OsRemove string
  | NetListen string
  | OsChmod string nat
  | LogPrintf string
  | ConnClose
  | RegisterRoute route_id destination bool
  | UnregisterRoute route_id
  | InjectMessage payload route_id
  | WritePacket string
  | TimeSleep nat
  | DoShutdown string int bool
  | GoHandleNewListenerConn nat
  | NewWshRouter
  | MakeRpcProxy
  | Go goroutine
  | SetUpstreamClient
  | ExtractUnverifiedRpcContext string
  | HandleProxyAuth string
  | MakeWshRpc rpc_context
  | SetAuthToken string
  | RouteAnnounceCommand
  | RunSysInfoLoop string

text \<open>
  Modelled from the spec: the constants \<open>wshrpc.Command_Dispose\<close> and
  \<open>wshutil.UpstreamRoute\<close> are declared outside the sources. The spec speaks of "a reserved
  Dispose command" and of the sentinel route "upstream".
\<close>

definition Command_Dispose :: string where
  "Command_Dispose = ''dispose''"

definition UpstreamRoute :: route_id where
  "UpstreamRoute = ''upstream''"

subsection \<open>\<open>MakeRemoteUnixListener\<close>\<close>

text \<open>The Go literal \<open>0700\<close> is octal.\<close>

definition perm_0700 :: nat where
  "perm_0700 = 7 * 8 ^ 2 + 0 * 8 + 0"

text \<open>
  \<open>serverAddr\<close> is \<open>wavebase.GetRemoteDomainSocketName()\<close>; \<open>listenResult\<close> is what
  \<open>net.Listen("unix", serverAddr)\<close> returns (a listener, here a number). The results of
  \<open>os.Remove\<close> and \<open>os.Chmod\<close> are ignored by the code.
\<close>

definition MakeRemoteUnixListener :: "string \<Rightarrow> string + nat \<Rightarrow> event list \<times> (string + nat)" where
  "MakeRemoteUnixListener serverAddr listenResult =
     (case listenResult of
        Inl err \<Rightarrow>
          ([OsRemove serverAddr, NetListen serverAddr],
           Inl (''error creating listener at '' @ serverAddr @ '': '' @ err))
      | Inr rtn \<Rightarrow>
          ([OsRemove serverAddr, NetListen serverAddr, OsChmod serverAddr perm_0700,
            LogPrintf (''Server [unix-domain] listening on '' @ serverAddr @ newline)],
           Inr rtn))"

subsection \<open>\<open>handleNewListenerConn\<close>\<close>

text \<open>
  The function starts two goroutines and goes on itself, so three threads run
  interleaved: the writer (\<open>AdaptOutputChToStream\<close>), the reader (\<open>AdaptStreamToMsgCh\<close>
  and the deferred teardown) and the handler (the body after the two \<open>go\<close> statements).
  Each thread is a program counter; one step is one call or one access to the shared
  \<open>routeIdContainer\<close>. A schedule, the list of threads in the order in which they step,
  stands for the timing: the moment the stream ends (the reader leaves \<open>R_Stream\<close>), the
  moment the authentication returns (the handler leaves \<open>H_Auth\<close>). A thread that has
  returned stays where it is when it is scheduled again. Panics, and the
  \<open>panichandler\<close> that the two goroutines defer for them, are left out.
\<close>

datatype handler_pc =
    H_Auth                  \<comment> \<open>in \<open>proxy.HandleClientProxyAuth(router)\<close>\<close>
  | H_LogErr string         \<comment> \<open>\<open>err != nil\<close>: before \<open>log.Printf\<close>\<close>
  | H_Close                 \<comment> \<open>before \<open>conn.Close()\<close>\<close>
  | H_Register route_id     \<comment> \<open>before \<open>router.RegisterRoute(routeId, proxy, false)\<close>\<close>
  | H_Store route_id        \<comment> \<open>before \<open>routeIdContainer.Store(&routeId)\<close>\<close>
  | H_Return

datatype reader_pc =
    R_Stream                \<comment> \<open>in \<open>wshutil.AdaptStreamToMsgCh(conn, proxy.FromRemoteCh)\<close>\<close>
  | R_Close                 \<comment> \<open>deferred: before \<open>conn.Close()\<close>\<close>
  | R_Load                  \<comment> \<open>before \<open>routeIdContainer.Load()\<close> and the test\<close>
  | R_Unregister route_id   \<comment> \<open>before \<open>router.UnregisterRoute(*routeIdPtr)\<close>\<close>
  | R_Inject route_id       \<comment> \<open>before \<open>router.InjectMessage(disposeBytes, *routeIdPtr)\<close>\<close>
  | R_Return

datatype writer_pc =
    W_Stream                \<comment> \<open>in \<open>wshutil.AdaptOutputChToStream(proxy.ToRemoteCh, conn)\<close>\<close>
  | W_Log string            \<comment> \<open>\<open>writeErr != nil\<close>: before \<open>log.Printf\<close>\<close>
  | W_Return

datatype conn_thread = Handler | Reader | Writer

text \<open>
  The environment of one connection: what \<open>HandleClientProxyAuth\<close> returns (an error, or
  the route id, together with the token it has bound to the proxy, which
  \<open>proxy.GetAuthToken()\<close> reads later), and the error of \<open>AdaptOutputChToStream\<close>, if any.
\<close>

record conn_env =
  authResult :: "string + route_id \<times> string"
  writeErr :: "string option"

record conn_state =
  handler_at :: handler_pc
  reader_at :: reader_pc
  writer_at :: writer_pc
  routeIdContainer :: "route_id option"   \<comment> \<open>\<open>atomic.Pointer[string]\<close>, \<open>None\<close> is nil\<close>
  proxyAuthToken :: string
  trace :: "event list"

definition conn_init :: conn_state where
  "conn_init = \<lparr>handler_at = H_Auth, reader_at = R_Stream, writer_at = W_Stream,
     routeIdContainer = None, proxyAuthToken = [], trace = []\<rparr>"

definition emit :: "event \<Rightarrow> conn_state \<Rightarrow> conn_state" where
  "emit ev s = s\<lparr>trace := trace s @ [ev]\<rparr>"

definition disposeMsg :: "route_id \<Rightarrow> string \<Rightarrow> rpc_message" where
  "disposeMsg routeId tok =
     \<lparr>Command = Command_Dispose, Data_RouteId = routeId, Source = routeId, AuthToken = tok\<rparr>"

definition handler_step :: "conn_env \<Rightarrow> conn_state \<Rightarrow> conn_state" where
  "handler_step e s =
     (case handler_at s of
        H_Auth \<Rightarrow>
          (case authResult e of
             Inl err \<Rightarrow> s\<lparr>handler_at := H_LogErr err\<rparr>
           | Inr (routeId, tok) \<Rightarrow> s\<lparr>handler_at := H_Register routeId, proxyAuthToken := tok\<rparr>)
      | H_LogErr err \<Rightarrow>
          emit (LogPrintf (''error handling client proxy auth: '' @ err @ newline))
            (s\<lparr>handler_at := H_Close\<rparr>)
      | H_Close \<Rightarrow> emit ConnClose (s\<lparr>handler_at := H_Return\<rparr>)
      | H_Register routeId \<Rightarrow>
          emit (RegisterRoute routeId RpcProxy False) (s\<lparr>handler_at := H_Store routeId\<rparr>)
      | H_Store routeId \<Rightarrow> s\<lparr>handler_at := H_Return, routeIdContainer := Some routeId\<rparr>
      | H_Return \<Rightarrow> s)"

definition reader_step :: "conn_state \<Rightarrow> conn_state" where
  "reader_step s =
     (case reader_at s of
        R_Stream \<Rightarrow> s\<lparr>reader_at := R_Close\<rparr>
      | R_Close \<Rightarrow> emit ConnClose (s\<lparr>reader_at := R_Load\<rparr>)
      | R_Load \<Rightarrow>
          (case routeIdContainer s of
             None \<Rightarrow> s\<lparr>reader_at := R_Return\<rparr>
           | Some routeId \<Rightarrow>
               if routeId \<noteq> [] then s\<lparr>reader_at := R_Unregister routeId\<rparr>
               else s\<lparr>reader_at := R_Return\<rparr>)
      | R_Unregister routeId \<Rightarrow>
          emit (UnregisterRoute routeId) (s\<lparr>reader_at := R_Inject routeId\<rparr>)
      | R_Inject routeId \<Rightarrow>
          emit (InjectMessage (Marshal (disposeMsg routeId (proxyAuthToken s))) routeId)
            (s\<lparr>reader_at := R_Return\<rparr>)
      | R_Return \<Rightarrow> s)"

definition writer_step :: "conn_env \<Rightarrow> conn_state \<Rightarrow> conn_state" where
  "writer_step e s =
     (case writer_at s of
        W_Stream \<Rightarrow>
          (case writeErr e of
             None \<Rightarrow> s\<lparr>writer_at := W_Return\<rparr>
           | Some err \<Rightarrow> s\<lparr>writer_at := W_Log err\<rparr>)
      | W_Log err \<Rightarrow>
          emit (LogPrintf (''error writing to domain socket: '' @ err @ newline))
            (s\<lparr>writer_at := W_Return\<rparr>)
      | W_Return \<Rightarrow> s)"

fun conn_step :: "conn_env \<Rightarrow> conn_thread \<Rightarrow> conn_state \<Rightarrow> conn_state" where
  "conn_step e Handler s = handler_step e s"
| "conn_step e Reader s = reader_step s"
| "conn_step e Writer s = writer_step e s"

fun handleNewListenerConn :: "conn_env \<Rightarrow> conn_thread list \<Rightarrow> conn_state \<Rightarrow> conn_state" where
  "handleNewListenerConn e [] s = s"
| "handleNewListenerConn e (t # sched) s = handleNewListenerConn e sched (conn_step e t s)"

text \<open>The calls a trace makes to the Router.\<close>

fun unregistered :: "event list \<Rightarrow> route_id list" where
  "unregistered [] = []"
| "unregistered (UnregisterRoute r # evs) = r # unregistered evs"
| "unregistered (ev # evs) = unregistered evs"

fun injected :: "event list \<Rightarrow> (payload \<times> route_id) list" where
  "injected [] = []"
| "injected (InjectMessage m r # evs) = (m, r) # injected evs"
| "injected (ev # evs) = injected evs"

fun registered :: "event list \<Rightarrow> route_id list" where
  "registered [] = []"
| "registered (RegisterRoute r d l # evs) = r # registered evs"
| "registered (ev # evs) = registered evs"

text \<open>
  What holds of the shared state and of the trace at each program point of the handler
  and of the reader. Both are invariants of every schedule (proved below).
\<close>

definition handler_inv :: "conn_env \<Rightarrow> conn_state \<Rightarrow> bool" where
  "handler_inv e s =
     (case handler_at s of
        H_Auth \<Rightarrow> registered (trace s) = [] \<and> routeIdContainer s = None
      | H_LogErr err \<Rightarrow>
          authResult e = Inl err \<and> registered (trace s) = [] \<and> routeIdContainer s = None
      | H_Close \<Rightarrow>
          isl (authResult e) \<and> registered (trace s) = [] \<and> routeIdContainer s = None
      | H_Register routeId \<Rightarrow>
          authResult e = Inr (routeId, proxyAuthToken s) \<and> registered (trace s) = [] \<and>
          routeIdContainer s = None
      | H_Store routeId \<Rightarrow>
          authResult e = Inr (routeId, proxyAuthToken s) \<and> registered (trace s) = [routeId] \<and>
          routeIdContainer s = None
      | H_Return \<Rightarrow>
          (case authResult e of
             Inl err \<Rightarrow>
               registered (trace s) = [] \<and> routeIdContainer s = None \<and> ConnClose \<in> set (trace s)
           | Inr (routeId, tok) \<Rightarrow>
               registered (trace s) = [routeId] \<and> routeIdContainer s = Some routeId \<and>
               proxyAuthToken s = tok))"

definition reader_inv :: "conn_state \<Rightarrow> bool" where
  "reader_inv s =
     (case reader_at s of
        R_Stream \<Rightarrow> unregistered (trace s) = [] \<and> injected (trace s) = []
      | R_Close \<Rightarrow> unregistered (trace s) = [] \<and> injected (trace s) = []
      | R_Load \<Rightarrow> unregistered (trace s) = [] \<and> injected (trace s) = []
      | R_Unregister routeId \<Rightarrow>
          unregistered (trace s) = [] \<and> injected (trace s) = [] \<and>
          routeIdContainer s = Some routeId \<and> routeId \<noteq> []
      | R_Inject routeId \<Rightarrow>
          unregistered (trace s) = [routeId] \<and> injected (trace s) = [] \<and>
          routeIdContainer s = Some routeId \<and> routeId \<noteq> []
      | R_Return \<Rightarrow>
          (unregistered (trace s) = [] \<and> injected (trace s) = []) \<or>
          (case routeIdContainer s of
             None \<Rightarrow> False
           | Some routeId \<Rightarrow>
               routeId \<noteq> [] \<and> unregistered (trace s) = [routeId] \<and>
               injected (trace s) = [(Marshal (disposeMsg routeId (proxyAuthToken s)), routeId)]))"

text \<open>How many steps each thread still has to take, at most.\<close>

fun handler_left :: "handler_pc \<Rightarrow> nat" where
  "handler_left H_Auth = 3"
| "handler_left (H_LogErr err) = 2"
| "handler_left H_Close = 1"
| "handler_left (H_Register routeId) = 2"
| "handler_left (H_Store routeId) = 1"
| "handler_left H_Return = 0"

fun reader_left :: "reader_pc \<Rightarrow> nat" where
  "reader_left R_Stream = 5"
| "reader_left R_Close = 4"
| "reader_left R_Load = 3"
| "reader_left (R_Unregister routeId) = 2"
| "reader_left (R_Inject routeId) = 1"
| "reader_left R_Return = 0"

text \<open>
  Once the route id is stored and the reader has not yet loaded it, the teardown will
  find it.
\<close>

definition stored_inv :: "route_id \<Rightarrow> string \<Rightarrow> conn_state \<Rightarrow> bool" where
  "stored_inv routeId tok s =
     (routeIdContainer s = Some routeId \<and> routeId \<noteq> [] \<and> proxyAuthToken s = tok \<and>
      handler_at s = H_Return \<and> reader_inv s \<and>
      (case reader_at s of
         R_Return \<Rightarrow>
           unregistered (trace s) = [routeId] \<and>
           injected (trace s) = [(Marshal (disposeMsg routeId tok), routeId)]
       | _ \<Rightarrow> True))"

subsection \<open>\<open>HandleClientProxyAuth\<close>\<close>

text \<open>
  Modelled from the spec: \<open>HandleClientProxyAuth\<close> is a method of \<open>wshutil.WshRpcProxy\<close>,
  which is not in the sources. The spec (4.2): "it must receive exactly one authentication
  envelope from its inbound queue within a bounded grace period and present its token to
  the Router for validation; success yields a newly minted route id, failure
  (missing/invalid token, timeout, malformed first message) yields an AuthError".
  \<open>first\<close> is what arrives on the inbound queue within the grace period; \<open>validate\<close> is
  the Router's validation, which gives the minted route id of a token it accepts.
\<close>

datatype first_message =
    NoMessage                       \<comment> \<open>nothing within the grace period\<close>
  | Malformed                       \<comment> \<open>not an authentication envelope\<close>
  | AuthEnvelope "string option"    \<comment> \<open>an authentication envelope and its token, if it has one\<close>

definition HandleClientProxyAuth ::
    "(string \<Rightarrow> route_id option) \<Rightarrow> first_message \<Rightarrow> string + route_id \<times> string" where
  "HandleClientProxyAuth validate first =
     (case first of
        NoMessage \<Rightarrow> Inl ''AuthError: no authentication envelope within the grace period''
      | Malformed \<Rightarrow> Inl ''AuthError: malformed first message''
      | AuthEnvelope None \<Rightarrow> Inl ''AuthError: missing token''
      | AuthEnvelope (Some tok) \<Rightarrow>
          (case validate tok of
             None \<Rightarrow> Inl ''AuthError: invalid token''
           | Some routeId \<Rightarrow> Inr (routeId, tok)))"

subsection \<open>\<open>runListener\<close>\<close>

text \<open>
  What \<open>listener.Accept()\<close> returns, call after call, is the input: a connection, the
  error \<open>io.EOF\<close>, or another error. The \<open>for\<close> loop consumes the results in order; when
  they are used up the loop is waiting in \<open>Accept\<close>. The second component tells whether
  the loop was left through \<open>break\<close>. A closed listener of package \<open>net\<close> answers every
  further \<open>Accept\<close> with an error other than \<open>io.EOF\<close>.
\<close>

datatype accept_result = AcceptConn nat | AcceptEOF | AcceptErr string

fun accept_loop :: "accept_result list \<Rightarrow> event list \<times> bool" where
  "accept_loop [] = ([], False)"
| "accept_loop (AcceptEOF # results) = ([], True)"
| "accept_loop (AcceptErr err # results) =
     (case accept_loop results of
        (evs, left) \<Rightarrow> (LogPrintf (''error accepting connection: '' @ err @ newline) # evs, left))"
| "accept_loop (AcceptConn conn # results) =
     (case accept_loop results of
        (evs, left) \<Rightarrow> (GoHandleNewListenerConn conn # evs, left))"

text \<open>The deferred function runs when the loop is left; \<open>TimeSleep\<close> counts milliseconds.\<close>

definition runListener :: "accept_result list \<Rightarrow> event list" where
  "runListener results =
     (case accept_loop results of
        (evs, left) \<Rightarrow>
          if left then
            evs @ [LogPrintf (''listener closed, exiting'' @ newline), TimeSleep 500,
                   DoShutdown [] 1 True]
          else evs)"

text \<open>
  Modelled from the spec: \<open>wshutil.DoShutdown(reason, exitCode, quiet)\<close> is not in the
  sources. By the spec it starts the "orderly shutdown path" that ends the process with
  an exit code ("0 for expected shutdown, non-zero for an unexpected listener failure");
  the model takes the exit code of the process to be the \<open>exitCode\<close> of the first call.
\<close>

fun exit_code :: "event list \<Rightarrow> int option" where
  "exit_code [] = None"
| "exit_code (DoShutdown reason exitCode quiet # evs) = Some exitCode"
| "exit_code (ev # evs) = exit_code evs"

subsection \<open>\<open>setupConnServerRpcClientWithRouter\<close> and \<open>serverRunRouter\<close>\<close>

text \<open>
  The environment at startup: the value of the environment variable named
  \<open>wshutil.WaveJwtTokenVarName\<close> (\<open>os.Getenv\<close> gives the empty string when it is unset),
  what \<open>wshutil.ExtractUnverifiedRpcContext\<close> and \<open>router.HandleProxyAuth\<close> return on a
  token (the latter: \<open>authRtn.RouteId\<close> and \<open>authRtn.AuthToken\<close>), the name of the domain
  socket and what \<open>net.Listen\<close> returns.
\<close>

record startup_env =
  WaveJwtTokenVarName :: string
  jwtTokenEnv :: string
  extractRpcContext :: "string \<Rightarrow> string + rpc_context"
  proxyAuth :: "string \<Rightarrow> string + route_id \<times> string"
  serverAddr :: string
  netListen :: "string + nat"

text \<open>The client that is returned is represented by the context it was made with.\<close>

definition setupConnServerRpcClientWithRouter ::
    "startup_env \<Rightarrow> event list \<times> (string + rpc_context)" where
  "setupConnServerRpcClientWithRouter env =
     (let jwtToken = jwtTokenEnv env in
      if jwtToken = [] then ([], Inl ''no jwt token found for connserver'')
      else
        (case extractRpcContext env jwtToken of
           Inl err \<Rightarrow>
             ([ExtractUnverifiedRpcContext jwtToken],
              Inl (''error extracting rpc context from '' @ WaveJwtTokenVarName env @ '': '' @ err))
         | Inr rpcCtx \<Rightarrow>
             (case proxyAuth env jwtToken of
                Inl err \<Rightarrow>
                  ([ExtractUnverifiedRpcContext jwtToken, HandleProxyAuth jwtToken],
                   Inl (''error handling proxy auth: '' @ err))
              | Inr (routeId, authToken) \<Rightarrow>
                  ([ExtractUnverifiedRpcContext jwtToken, HandleProxyAuth jwtToken,
                    MakeWshRpc rpcCtx, SetAuthToken authToken,
                    RegisterRoute routeId ConnServerClient False, RouteAnnounceCommand],
                   Inr rpcCtx))))"

text \<open>
  The main goroutine of \<open>serverRunRouter\<close>: it returns an error, or it never returns
  (\<open>select {}\<close>).
\<close>

datatype run_result = ReturnErr string | BlockedForever

definition serverRunRouter :: "startup_env \<Rightarrow> event list \<times> run_result" where
  "serverRunRouter env =
     (let started = [NewWshRouter, MakeRpcProxy, Go GoParse, Go GoWritePackets, Go GoDrainRawCh,
                     Go GoInjectUpstream, SetUpstreamClient] in
      case MakeRemoteUnixListener (serverAddr env) (netListen env) of
        (evs1, Inl err) \<Rightarrow> (started @ evs1, ReturnErr (''cannot create unix listener: '' @ err))
      | (evs1, Inr unixListener) \<Rightarrow>
          (case setupConnServerRpcClientWithRouter env of
             (evs2, Inl err) \<Rightarrow>
               (started @ evs1 @ evs2,
                ReturnErr (''error setting up connserver rpc client: '' @ err))
           | (evs2, Inr client) \<Rightarrow>
               (started @ evs1 @ evs2 @ [Go (GoRunListener unixListener), RunSysInfoLoop (Conn client)],
                BlockedForever)))"

subsection \<open>The goroutines on standard input and output\<close>

text \<open>
  Modelled from the spec: \<open>packetparser.Parse\<close> is not in the sources. The spec (4.1):
  "parse(inputStream) \<rightarrow> (sequence of decoded envelopes, sequence of raw passthrough
  bytes)", a sequence that "ends at end-of-stream". Standard input is given as the
  chunks the codec tells apart, in order: a framed packet or raw bytes. \<open>Parse\<close> sends
  each chunk on its channel (\<open>termProxy.FromRemoteCh\<close> for packets, \<open>rawCh\<close> for raw
  bytes), waits while that channel is full, and closes both channels at the end of the
  stream (the loops \<open>for range rawCh\<close> and \<open>for msg := range termProxy.FromRemoteCh\<close>
  of the source end then).
\<close>

datatype chunk = Packet string | Raw string

text \<open>The four goroutines that \<open>serverRunRouter\<close> starts before it creates the listener.\<close>

datatype stdio_thread = Parse | WritePackets | DrainRawCh | InjectUpstream

text \<open>
  The capacities of \<open>rawCh\<close> (\<open>wshutil.DefaultOutputChSize\<close>) and of
  \<open>termProxy.FromRemoteCh\<close> (made by \<open>MakeRpcProxy\<close>); both are declared outside the sources.
\<close>

record stdio_env =
  DefaultOutputChSize :: nat
  FromRemoteChSize :: nat

text \<open>
  \<open>ToRemoteCh\<close> holds what the Router sends upstream; \<open>calls\<close> is the trace. \<open>exited\<close>
  is the exit code once the process has ended.
\<close>

record stdio_state =
  stdin :: "chunk list"
  closed :: bool
  rawCh :: "string list"
  FromRemoteCh :: "string list"
  ToRemoteCh :: "string list"
  exited :: "int option"
  calls :: "event list"

definition stdio_init :: "chunk list \<Rightarrow> string list \<Rightarrow> stdio_state" where
  "stdio_init input toRemote = \<lparr>stdin = input, closed = False, rawCh = [], FromRemoteCh = [],
     ToRemoteCh = toRemote, exited = None, calls = []\<rparr>"

definition parse_step :: "stdio_env \<Rightarrow> stdio_state \<Rightarrow> stdio_state" where
  "parse_step e s =
     (if closed s then s
      else
        (case stdin s of
           [] \<Rightarrow> s\<lparr>closed := True\<rparr>
         | Packet msg # rest \<Rightarrow>
             if length (FromRemoteCh s) < FromRemoteChSize e
             then s\<lparr>stdin := rest, FromRemoteCh := FromRemoteCh s @ [msg]\<rparr> else s
         | Raw bytes # rest \<Rightarrow>
             if length (rawCh s) < DefaultOutputChSize e
             then s\<lparr>stdin := rest, rawCh := rawCh s @ [bytes]\<rparr> else s))"

text \<open>\<open>for msg := range termProxy.ToRemoteCh { packetparser.WritePacket(os.Stdout, msg) }\<close>\<close>

definition write_step :: "stdio_state \<Rightarrow> stdio_state" where
  "write_step s =
     (case ToRemoteCh s of
        [] \<Rightarrow> s
      | msg # rest \<Rightarrow> s\<lparr>ToRemoteCh := rest, calls := calls s @ [WritePacket msg]\<rparr>)"

text \<open>
  \<open>defer wshutil.DoShutdown("", 0, true); for range rawCh { }\<close>: a chunk of raw bytes is
  taken from the channel and ignored; when the channel is closed and empty the loop ends
  and the deferred call is made.
\<close>

definition drain_step :: "stdio_state \<Rightarrow> stdio_state" where
  "drain_step s =
     (case rawCh s of
        bytes # rest \<Rightarrow> s\<lparr>rawCh := rest\<rparr>
      | [] \<Rightarrow>
          if closed s then s\<lparr>exited := Some 0, calls := calls s @ [DoShutdown [] 0 True]\<rparr>
          else s)"

text \<open>\<open>for msg := range termProxy.FromRemoteCh { router.InjectMessage(msg, wshutil.UpstreamRoute) }\<close>\<close>

definition inject_step :: "stdio_state \<Rightarrow> stdio_state" where
  "inject_step s =
     (case FromRemoteCh s of
        [] \<Rightarrow> s
      | msg # rest \<Rightarrow>
          s\<lparr>FromRemoteCh := rest,
            calls := calls s @ [InjectMessage (Bytes msg) UpstreamRoute]\<rparr>)"

text \<open>
  Modelled from the spec: \<open>wshutil.DoShutdown\<close> is not in the sources. By the spec (5),
  "after shutdown is initiated, no further delivery is attempted": once \<open>DoShutdown\<close>
  has been called the process has ended, and no goroutine takes a step.
\<close>

definition stdio_step :: "stdio_env \<Rightarrow> stdio_thread \<Rightarrow> stdio_state \<Rightarrow> stdio_state" where
  "stdio_step e t s =
     (if exited s \<noteq> None then s
      else
        (case t of
           Parse \<Rightarrow> parse_step e s
         | WritePackets \<Rightarrow> write_step s
         | DrainRawCh \<Rightarrow> drain_step s
         | InjectUpstream \<Rightarrow> inject_step s))"

fun stdio_run :: "stdio_env \<Rightarrow> stdio_thread list \<Rightarrow> stdio_state \<Rightarrow> stdio_state" where
  "stdio_run e [] s = s"
| "stdio_run e (t # sched) s = stdio_run e sched (stdio_step e t s)"

fun packets :: "chunk list \<Rightarrow> string list" where
  "packets [] = []"
| "packets (Packet msg # cs) = msg # packets cs"
| "packets (Raw bytes # cs) = packets cs"

fun written :: "event list \<Rightarrow> string list" where
  "written [] = []"
| "written (WritePacket msg # evs) = msg # written evs"
| "written (ev # evs) = written evs"

text \<open>The same input with the content of every raw chunk removed.\<close>

fun blank :: "chunk \<Rightarrow> chunk" where
  "blank (Packet msg) = Packet msg"
| "blank (Raw bytes) = Raw []"

text \<open>
  The invariant of the four goroutines: the packets injected so far, those waiting in
  the channel and those still to be read are the packets of the input, in order; the
  same for the messages written to standard output; every call of the trace is one of
  these or the final \<open>DoShutdown\<close>.
\<close>

definition stdio_inv :: "chunk list \<Rightarrow> string list \<Rightarrow> stdio_state \<Rightarrow> bool" where
  "stdio_inv input toRemote s =
     (injected (calls s) @ map (\<lambda>msg. (Bytes msg, UpstreamRoute)) (FromRemoteCh s @ packets (stdin s)) =
        map (\<lambda>msg. (Bytes msg, UpstreamRoute)) (packets input) \<and>
      written (calls s) @ ToRemoteCh s = toRemote \<and>
      length (calls s) = length (injected (calls s)) + length (written (calls s)) +
        (case exited s of None \<Rightarrow> 0 | Some c \<Rightarrow> 1) \<and>
      (case exited s of
         None \<Rightarrow> exit_code (calls s) = None
       | Some c \<Rightarrow>
           c = 0 \<and> closed s \<and> rawCh s = [] \<and>
           (\<exists>evs. calls s = evs @ [DoShutdown [] 0 True] \<and> exit_code evs = None)) \<and>
      (if closed s then stdin s = [] else True))"

text \<open>Two states that differ in the content of the raw bytes only.\<close>

definition blanked :: "stdio_state \<Rightarrow> stdio_state \<Rightarrow> bool" where
  "blanked s s' =
     (stdin s' = map blank (stdin s) \<and> closed s' = closed s \<and>
      length (rawCh s') = length (rawCh s) \<and> FromRemoteCh s' = FromRemoteCh s \<and>
      ToRemoteCh s' = ToRemoteCh s \<and> exited s' = exited s \<and> calls s' = calls s)"

subsection \<open>Example environments\<close>

definition env_valid :: startup_env where
  "env_valid = \<lparr>WaveJwtTokenVarName = ''WAVETERM_JWT'', jwtTokenEnv = ''token'',
     extractRpcContext = (\<lambda>tok. Inr \<lparr>Conn = ''conn''\<rparr>),
     proxyAuth = (\<lambda>tok. Inr (''route'', ''auth'')),
     serverAddr = ''/tmp/wave.sock'', netListen = Inr 0\<rparr>"

definition env_rejected :: startup_env where
  "env_rejected = env_valid\<lparr>proxyAuth := (\<lambda>tok. Inl ''invalid token'')\<rparr>"

definition env_no_token :: startup_env where
  "env_no_token = env_valid\<lparr>jwtTokenEnv := []\<rparr>"

section \<open>Properties\<close>

subsection \<open>Invariants of \<open>handleNewListenerConn\<close>\<close>

lemma unregistered_append: "unregistered (xs @ ys) = unregistered xs @ unregistered ys"
  by (induction xs rule: unregistered.induct) simp_all

lemma injected_append: "injected (xs @ ys) = injected xs @ injected ys"
  by (induction xs rule: injected.induct) simp_all

lemma registered_append: "registered (xs @ ys) = registered xs @ registered ys"
  by (induction xs rule: registered.induct) simp_all

lemmas proj_append = unregistered_append injected_append registered_append

lemma handler_step_handler_inv: "handler_inv e s \<Longrightarrow> handler_inv e (handler_step e s)"
  by (auto simp: handler_inv_def handler_step_def emit_def proj_append
      split: handler_pc.splits sum.splits prod.splits)

lemma reader_step_handler_inv: "handler_inv e s \<Longrightarrow> handler_inv e (reader_step s)"
  by (auto simp: handler_inv_def reader_step_def emit_def proj_append
      split: handler_pc.splits reader_pc.splits sum.splits prod.splits option.splits)

lemma writer_step_handler_inv: "handler_inv e s \<Longrightarrow> handler_inv e (writer_step e s)"
  by (auto simp: handler_inv_def writer_step_def emit_def proj_append
      split: handler_pc.splits writer_pc.splits sum.splits prod.splits option.splits)

lemma reader_step_reader_inv: "reader_inv s \<Longrightarrow> reader_inv (reader_step s)"
  by (auto simp: reader_inv_def reader_step_def emit_def proj_append
      split: reader_pc.splits option.splits)

lemma writer_step_reader_inv: "reader_inv s \<Longrightarrow> reader_inv (writer_step e s)"
  by (auto simp: reader_inv_def writer_step_def emit_def proj_append
      split: reader_pc.splits writer_pc.splits option.splits)

lemma handler_step_reader_inv:
  "handler_inv e s \<Longrightarrow> reader_inv s \<Longrightarrow> reader_inv (handler_step e s)"
  by (auto simp: reader_inv_def handler_inv_def handler_step_def emit_def proj_append
      split: reader_pc.splits handler_pc.splits option.splits sum.splits prod.splits)

lemma conn_init_inv: "handler_inv e conn_init \<and> reader_inv conn_init"
  by (simp add: handler_inv_def reader_inv_def conn_init_def)

lemma conn_step_inv:
  "handler_inv e s \<and> reader_inv s \<Longrightarrow>
   handler_inv e (conn_step e t s) \<and> reader_inv (conn_step e t s)"
  by (cases t)
    (simp_all add: handler_step_handler_inv reader_step_handler_inv writer_step_handler_inv
      handler_step_reader_inv reader_step_reader_inv writer_step_reader_inv)

lemma run_inv:
  "handler_inv e s \<and> reader_inv s \<Longrightarrow>
   handler_inv e (handleNewListenerConn e sched s) \<and> reader_inv (handleNewListenerConn e sched s)"
proof (induction sched arbitrary: s)
  case Nil
  then show ?case by simp
next
  case (Cons t sched)
  from Cons.prems have "handler_inv e (conn_step e t s) \<and> reader_inv (conn_step e t s)"
    by (rule conn_step_inv)
  then show ?case using Cons.IH by simp
qed

lemma reachable_inv:
  "handler_inv e (handleNewListenerConn e sched conn_init) \<and>
   reader_inv (handleNewListenerConn e sched conn_init)"
  by (rule run_inv [OF conn_init_inv])

lemma run_append:
  "handleNewListenerConn e (xs @ ys) s = handleNewListenerConn e ys (handleNewListenerConn e xs s)"
  by (induction xs arbitrary: s) simp_all

text \<open>Progress: the handler depends on nothing but its own steps.\<close>

lemma handler_left_step:
  "handler_left (handler_at (conn_step e t s)) =
   (if t = Handler then handler_left (handler_at s) - 1 else handler_left (handler_at s))"
  by (cases t)
    (auto simp: handler_step_def reader_step_def writer_step_def emit_def
      split: handler_pc.splits reader_pc.splits writer_pc.splits sum.splits prod.splits option.splits)

lemma handler_left_run:
  "handler_left (handler_at (handleNewListenerConn e sched s)) =
   handler_left (handler_at s) - count_list sched Handler"
  by (induction sched arbitrary: s) (simp_all add: handler_left_step)

lemma handler_left_0: "handler_left pc = 0 \<longleftrightarrow> pc = H_Return"
  by (cases pc) simp_all

lemma reader_left_step:
  "reader_left (reader_at (conn_step e t s)) \<le>
   (if t = Reader then reader_left (reader_at s) - 1 else reader_left (reader_at s))"
  by (cases t)
    (auto simp: handler_step_def reader_step_def writer_step_def emit_def
      split: handler_pc.splits reader_pc.splits writer_pc.splits sum.splits prod.splits option.splits)

lemma reader_left_run:
  "reader_left (reader_at (handleNewListenerConn e sched s)) \<le>
   reader_left (reader_at s) - count_list sched Reader"
proof (induction sched arbitrary: s)
  case Nil
  then show ?case by simp
next
  case (Cons t sched)
  have "reader_left (reader_at (handleNewListenerConn e sched (conn_step e t s)))
      \<le> reader_left (reader_at (conn_step e t s)) - count_list sched Reader"
    by (rule Cons.IH)
  also have "\<dots> \<le> reader_left (reader_at s) - count_list (t # sched) Reader"
    using reader_left_step [of e t s] by (simp split: if_splits)
  finally show ?case by simp
qed

lemma reader_left_0: "reader_left pc = 0 \<longleftrightarrow> pc = R_Return"
  by (cases pc) simp_all

text \<open>A failed authentication\<close>

lemma auth_failed_state:
  assumes "authResult e = Inl err" and "handler_inv e s" and "reader_inv s"
  shows "registered (trace s) = [] \<and> routeIdContainer s = None \<and>
         unregistered (trace s) = [] \<and> injected (trace s) = [] \<and>
         (handler_at s = H_Return \<longrightarrow> ConnClose \<in> set (trace s))"
proof -
  from assms(1,2) have h: "registered (trace s) = [] \<and> routeIdContainer s = None \<and>
      (handler_at s = H_Return \<longrightarrow> ConnClose \<in> set (trace s))"
    by (auto simp: handler_inv_def split: handler_pc.splits)
  with assms(3) have "unregistered (trace s) = [] \<and> injected (trace s) = []"
    by (auto simp: reader_inv_def split: reader_pc.splits)
  with h show ?thesis by simp
qed

lemma returned_reader_step:
  "reader_at s = R_Return \<Longrightarrow>
   reader_at (conn_step e t s) = R_Return \<and>
   unregistered (trace (conn_step e t s)) = unregistered (trace s) \<and>
   injected (trace (conn_step e t s)) = injected (trace s)"
  by (cases t)
    (auto simp: handler_step_def reader_step_def writer_step_def emit_def proj_append
      split: handler_pc.splits writer_pc.splits sum.splits prod.splits option.splits)

lemma returned_reader_run:
  "reader_at s = R_Return \<Longrightarrow>
   reader_at (handleNewListenerConn e sched s) = R_Return \<and>
   unregistered (trace (handleNewListenerConn e sched s)) = unregistered (trace s) \<and>
   injected (trace (handleNewListenerConn e sched s)) = injected (trace s)"
proof (induction sched arbitrary: s)
  case Nil
  then show ?case by simp
next
  case (Cons t sched)
  from returned_reader_step [OF Cons.prems, of e t] Cons.IH [of "conn_step e t s"]
  show ?case by simp
qed

lemma load_nil_step:
  assumes "reader_at s = R_Load" and "routeIdContainer s = None \<or> routeIdContainer s = Some []"
    and "reader_inv s"
  shows "reader_at (reader_step s) = R_Return \<and> unregistered (trace (reader_step s)) = [] \<and>
         injected (trace (reader_step s)) = []"
  using assms by (auto simp: reader_step_def reader_inv_def)

lemma teardown_calls_state:
  assumes "handler_inv e s" and "reader_inv s"
    and "unregistered (trace s) \<noteq> [] \<or> injected (trace s) \<noteq> []"
  shows "\<exists>routeId. routeId \<noteq> [] \<and> routeIdContainer s = Some routeId \<and>
           registered (trace s) = [routeId] \<and> handler_at s = H_Return"
proof -
  from assms(2,3) obtain routeId where r: "routeId \<noteq> []" "routeIdContainer s = Some routeId"
    by (auto simp: reader_inv_def split: reader_pc.splits option.splits)
  with assms(1) have "registered (trace s) = [routeId] \<and> handler_at s = H_Return"
    by (auto simp: handler_inv_def split: handler_pc.splits sum.splits prod.splits)
  with r show ?thesis by blast
qed

lemma teardown_at_most_once:
  "length (unregistered (trace (handleNewListenerConn e sched conn_init))) \<le> 1 \<and>
   length (injected (trace (handleNewListenerConn e sched conn_init))) \<le> 1"
  using reachable_inv [of e sched]
  by (auto simp: reader_inv_def split: reader_pc.splits option.splits)

lemma stored_inv_step: "stored_inv routeId tok s \<Longrightarrow> stored_inv routeId tok (conn_step e t s)"
proof (cases t)
  case Handler
  assume "stored_inv routeId tok s"
  then show ?thesis using Handler
    by (simp add: stored_inv_def handler_step_def)
next
  case Reader
  assume a: "stored_inv routeId tok s"
  then have "reader_inv (reader_step s)"
    by (simp add: stored_inv_def reader_step_reader_inv)
  with a show ?thesis using Reader
    by (auto simp: stored_inv_def reader_step_def reader_inv_def emit_def proj_append
        split: reader_pc.splits)
next
  case Writer
  assume a: "stored_inv routeId tok s"
  then have "reader_inv (writer_step e s)"
    by (simp add: stored_inv_def writer_step_reader_inv)
  with a show ?thesis using Writer
    by (auto simp: stored_inv_def writer_step_def emit_def proj_append
        split: reader_pc.splits writer_pc.splits option.splits)
qed

lemma stored_inv_run:
  "stored_inv routeId tok s \<Longrightarrow> stored_inv routeId tok (handleNewListenerConn e sched s)"
  by (induction sched arbitrary: s) (simp_all add: stored_inv_step)

lemma teardown_after_store:
  assumes "routeIdContainer (handleNewListenerConn e sched conn_init) = Some routeId"
    and "routeId \<noteq> []"
    and "3 \<le> reader_left (reader_at (handleNewListenerConn e sched conn_init))"
    and "5 \<le> count_list sched' Reader"
  shows "unregistered (trace (handleNewListenerConn e (sched @ sched') conn_init)) = [routeId] \<and>
         injected (trace (handleNewListenerConn e (sched @ sched') conn_init)) =
           [(Marshal (disposeMsg routeId (proxyAuthToken (handleNewListenerConn e sched conn_init))),
             routeId)]"
proof -
  let ?s = "handleNewListenerConn e sched conn_init"
  let ?s' = "handleNewListenerConn e sched' ?s"
  have inv: "handler_inv e ?s" "reader_inv ?s"
    using reachable_inv [of e sched] by simp_all
  from inv(1) assms(1) have "handler_at ?s = H_Return"
    by (auto simp: handler_inv_def split: handler_pc.splits)
  moreover from assms(3) have "reader_at ?s \<noteq> R_Return"
    by auto
  ultimately have "stored_inv routeId (proxyAuthToken ?s) ?s"
    using assms(1,2) inv(2) by (auto simp: stored_inv_def split: reader_pc.splits)
  then have st: "stored_inv routeId (proxyAuthToken ?s) ?s'"
    by (rule stored_inv_run)
  have "reader_left (reader_at ?s') = 0"
    using reader_left_run [of e sched' ?s] assms(4)
    by (cases "reader_at ?s") auto
  then have "reader_at ?s' = R_Return"
    by (simp add: reader_left_0)
  with st show ?thesis
    by (simp add: stored_inv_def run_append)
qed

subsection \<open>Closing a registered connection\<close>

text \<open>
  Claim C1: for every connection that was authenticated and registered under a route id,
  closing the connection causes exactly one \<open>UnregisterRoute\<close> call for that route id
  and exactly one Dispose envelope injected under it.

  The teardown is the deferred function of the reader goroutine, so it runs once, and
  it makes each of the two calls at most once (\<open>teardown_at_most_once\<close>). When the
  stream ends after \<open>routeIdContainer.Store\<close>, it makes each exactly once
  (\<open>teardown_after_store\<close>). But the handler stores the route id after it has
  registered the route, and the reader may load the pointer in between. Below, the
  peer authenticates as route \<open>r1\<close> and closes at once: the handler registers the
  route, the reader sees the end of the stream, closes the connection and loads a nil
  pointer, and only then the handler stores the route id. All three goroutines have
  returned, the route \<open>r1\<close> has been registered, and the trace holds no
  \<open>UnregisterRoute\<close> and no \<open>InjectMessage\<close>.
\<close>

theorem close_before_store_leaks_route:
  "handler_at (handleNewListenerConn \<lparr>authResult = Inr (''r1'', ''tok''), writeErr = None\<rparr>
     [Handler, Handler, Reader, Reader, Reader, Handler, Writer] conn_init) = H_Return \<and>
   reader_at (handleNewListenerConn \<lparr>authResult = Inr (''r1'', ''tok''), writeErr = None\<rparr>
     [Handler, Handler, Reader, Reader, Reader, Handler, Writer] conn_init) = R_Return \<and>
   writer_at (handleNewListenerConn \<lparr>authResult = Inr (''r1'', ''tok''), writeErr = None\<rparr>
     [Handler, Handler, Reader, Reader, Reader, Handler, Writer] conn_init) = W_Return \<and>
   routeIdContainer (handleNewListenerConn \<lparr>authResult = Inr (''r1'', ''tok''), writeErr = None\<rparr>
     [Handler, Handler, Reader, Reader, Reader, Handler, Writer] conn_init) = Some ''r1'' \<and>
   trace (handleNewListenerConn \<lparr>authResult = Inr (''r1'', ''tok''), writeErr = None\<rparr>
     [Handler, Handler, Reader, Reader, Reader, Handler, Writer] conn_init) =
     [RegisterRoute ''r1'' RpcProxy False, ConnClose]"
  by (simp add: conn_init_def handler_step_def reader_step_def writer_step_def emit_def)

subsection \<open>A failed authentication\<close>

text \<open>
  Claim C2: when the authentication handshake of an accepted connection fails (no
  envelope within the grace period, a malformed first message, a missing or an invalid
  token), \<open>HandleClientProxyAuth\<close> returns an error, the connection is closed, and the
  proxy is never registered in the Router. Under every schedule no \<open>RegisterRoute\<close> is
  called and the route id pointer stays nil; once the handler has taken its three steps
  it has returned and \<open>conn.Close()\<close> has been called.
\<close>

theorem auth_failure_never_registered:
  assumes "first = NoMessage \<or> first = Malformed \<or> first = AuthEnvelope None \<or>
           (\<exists>tok. first = AuthEnvelope (Some tok) \<and> validate tok = None)"
    and "authResult e = HandleClientProxyAuth validate first"
  shows "(\<exists>err. authResult e = Inl err) \<and>
         registered (trace (handleNewListenerConn e sched conn_init)) = [] \<and>
         routeIdContainer (handleNewListenerConn e sched conn_init) = None \<and>
         (3 \<le> count_list sched Handler \<longrightarrow>
            handler_at (handleNewListenerConn e sched conn_init) = H_Return \<and>
            ConnClose \<in> set (trace (handleNewListenerConn e sched conn_init)))"
proof -
  from assms obtain err where err: "authResult e = Inl err"
    by (auto simp: HandleClientProxyAuth_def)
  let ?s = "handleNewListenerConn e sched conn_init"
  have inv: "handler_inv e ?s" "reader_inv ?s"
    using reachable_inv [of e sched] by simp_all
  have st: "registered (trace ?s) = [] \<and> routeIdContainer ?s = None \<and>
      (handler_at ?s = H_Return \<longrightarrow> ConnClose \<in> set (trace ?s))"
    using auth_failed_state [OF err inv] by simp
  have "3 \<le> count_list sched Handler \<Longrightarrow> handler_at ?s = H_Return"
  proof -
    assume "3 \<le> count_list sched Handler"
    then have "handler_left (handler_at ?s) = 0"
      using handler_left_run [of e sched conn_init] by (simp add: conn_init_def)
    then show ?thesis by (simp add: handler_left_0)
  qed
  with st err show ?thesis by blast
qed

theorem auth_failure_never_registered_witness:
  "registered (trace (handleNewListenerConn
      \<lparr>authResult = HandleClientProxyAuth (\<lambda>tok. None) (AuthEnvelope (Some ''bad'')), writeErr = None\<rparr>
      [Reader, Handler, Handler, Handler] conn_init)) = [] \<and>
   ConnClose \<in> set (trace (handleNewListenerConn
      \<lparr>authResult = HandleClientProxyAuth (\<lambda>tok. None) (AuthEnvelope (Some ''bad'')), writeErr = None\<rparr>
      [Reader, Handler, Handler, Handler] conn_init))"
  using auth_failure_never_registered [of "AuthEnvelope (Some ''bad'')" "\<lambda>tok. None"
      "\<lparr>authResult = HandleClientProxyAuth (\<lambda>tok. None) (AuthEnvelope (Some ''bad'')), writeErr = None\<rparr>"
      "[Reader, Handler, Handler, Handler]"]
  by simp

subsection \<open>Teardown without a stored route id\<close>

text \<open>
  Claim C10: if the connection closes while the stored route id pointer is still nil or
  empty (in particular before the authentication has succeeded and the route is
  registered), the teardown calls neither \<open>UnregisterRoute\<close> nor \<open>InjectMessage\<close>,
  now or later; and whenever one of the two calls has been made, the route id is
  non-empty and stored, the handler has returned and the route has been registered: a
  Dispose envelope is made only for a connection that completed its registration.
\<close>

theorem teardown_only_with_stored_route_id:
  "(reader_at (handleNewListenerConn e sched conn_init) = R_Load \<and>
    (routeIdContainer (handleNewListenerConn e sched conn_init) = None \<or>
     routeIdContainer (handleNewListenerConn e sched conn_init) = Some []) \<longrightarrow>
      unregistered (trace (handleNewListenerConn e (sched @ Reader # rest) conn_init)) = [] \<and>
      injected (trace (handleNewListenerConn e (sched @ Reader # rest) conn_init)) = []) \<and>
   (unregistered (trace (handleNewListenerConn e sched conn_init)) \<noteq> [] \<or>
    injected (trace (handleNewListenerConn e sched conn_init)) \<noteq> [] \<longrightarrow>
      (\<exists>routeId. routeId \<noteq> [] \<and>
         routeIdContainer (handleNewListenerConn e sched conn_init) = Some routeId \<and>
         registered (trace (handleNewListenerConn e sched conn_init)) = [routeId] \<and>
         handler_at (handleNewListenerConn e sched conn_init) = H_Return))"
proof -
  let ?s = "handleNewListenerConn e sched conn_init"
  have inv: "handler_inv e ?s" "reader_inv ?s"
    using reachable_inv [of e sched] by simp_all
  have one: "unregistered (trace (handleNewListenerConn e (sched @ Reader # rest) conn_init)) = [] \<and>
      injected (trace (handleNewListenerConn e (sched @ Reader # rest) conn_init)) = []"
    if "reader_at ?s = R_Load" and "routeIdContainer ?s = None \<or> routeIdContainer ?s = Some []"
  proof -
    from load_nil_step [OF that inv(2)]
    have q: "reader_at (reader_step ?s) = R_Return"
      "unregistered (trace (reader_step ?s)) = []" "injected (trace (reader_step ?s)) = []"
      by simp_all
    from returned_reader_run [OF q(1), of e rest] q(2,3)
    show ?thesis by (simp add: run_append)
  qed
  have two: "\<exists>routeId. routeId \<noteq> [] \<and> routeIdContainer ?s = Some routeId \<and>
      registered (trace ?s) = [routeId] \<and> handler_at ?s = H_Return"
    if "unregistered (trace ?s) \<noteq> [] \<or> injected (trace ?s) \<noteq> []"
    using teardown_calls_state [OF inv that] .
  from one two show ?thesis by blast
qed

theorem teardown_only_with_stored_route_id_witness:
  "reader_at (handleNewListenerConn \<lparr>authResult = Inr (''r1'', ''tok''), writeErr = None\<rparr>
      [Handler, Handler, Reader, Reader] conn_init) = R_Load \<and>
   routeIdContainer (handleNewListenerConn \<lparr>authResult = Inr (''r1'', ''tok''), writeErr = None\<rparr>
      [Handler, Handler, Reader, Reader] conn_init) = None \<and>
   unregistered (trace (handleNewListenerConn \<lparr>authResult = Inr (''r1'', ''tok''), writeErr = None\<rparr>
      ([Handler, Handler, Reader, Reader] @ Reader # [Handler, Reader, Reader]) conn_init)) = [] \<and>
   injected (trace (handleNewListenerConn \<lparr>authResult = Inr (''r1'', ''tok''), writeErr = None\<rparr>
      [Handler, Handler, Handler, Reader, Reader, Reader, Reader, Reader] conn_init)) \<noteq> [] \<and>
   registered (trace (handleNewListenerConn \<lparr>authResult = Inr (''r1'', ''tok''), writeErr = None\<rparr>
      [Handler, Handler, Handler, Reader, Reader, Reader, Reader, Reader] conn_init)) = [''r1'']"
  using teardown_only_with_stored_route_id [of "\<lparr>authResult = Inr (''r1'', ''tok''), writeErr = None\<rparr>"
      "[Handler, Handler, Reader, Reader]" "[Handler, Reader, Reader]"]
    teardown_only_with_stored_route_id [of "\<lparr>authResult = Inr (''r1'', ''tok''), writeErr = None\<rparr>"
      "[Handler, Handler, Handler, Reader, Reader, Reader, Reader, Reader]" "[]"]
  by (simp add: conn_init_def handler_step_def reader_step_def writer_step_def emit_def)

subsection \<open>The domain socket\<close>

text \<open>
  Claim C9: at process start the path of the local socket is removed before the
  listener is created, and the socket file that was created is given the owner-only
  mode 0700. \<open>MakeRemoteUnixListener\<close> calls \<open>os.Remove\<close> on the address, then
  \<open>net.Listen\<close> on it; when the listener was created it calls \<open>os.Chmod\<close> with mode
  0700 (all three bits of the owner, none of group and others) and logs; when it was not,
  it returns the error having done nothing else.
\<close>

theorem socket_removed_then_listen_then_chmod:
  "\<exists>rest. fst (MakeRemoteUnixListener addr listenResult) = OsRemove addr # NetListen addr # rest \<and>
     (case listenResult of
        Inl err \<Rightarrow> rest = [] \<and> isl (snd (MakeRemoteUnixListener addr listenResult))
      | Inr rtn \<Rightarrow>
          snd (MakeRemoteUnixListener addr listenResult) = Inr rtn \<and>
          (\<exists>msg. rest = [OsChmod addr perm_0700, LogPrintf msg])) \<and>
     perm_0700 div 64 = 7 \<and> perm_0700 mod 64 = 0"
  by (cases listenResult) (simp_all add: MakeRemoteUnixListener_def perm_0700_def)

subsection \<open>The accept loop\<close>

lemma accept_loop_left: "snd (accept_loop results) \<longleftrightarrow> AcceptEOF \<in> set results"
  by (induction results rule: accept_loop.induct) (auto split: prod.splits)

lemma accept_loop_append:
  "AcceptEOF \<notin> set xs \<Longrightarrow>
   accept_loop (xs @ ys) = (fst (accept_loop xs) @ fst (accept_loop ys), snd (accept_loop ys))"
  by (induction xs rule: accept_loop.induct) (auto split: prod.splits)

lemma exit_code_append:
  "exit_code (xs @ ys) = (case exit_code xs of None \<Rightarrow> exit_code ys | Some c \<Rightarrow> Some c)"
  by (induction xs rule: exit_code.induct) simp_all

lemma accept_loop_no_exit: "exit_code (fst (accept_loop results)) = None"
  by (induction results rule: accept_loop.induct) (auto split: prod.splits)

text \<open>
  Claim C8: when \<open>Accept\<close> returns an error other than \<open>io.EOF\<close>, the error is logged and
  the loop goes on accepting; the failure neither ends the process nor closes a
  connection. The listener does what it did before the error, one \<open>log.Printf\<close>, and
  what it does on the results that follow.
\<close>

theorem accept_error_logged_and_loop_continues:
  "AcceptEOF \<notin> set before \<Longrightarrow>
   runListener (before @ AcceptErr err # after) =
     runListener before @ LogPrintf (''error accepting connection: '' @ err @ newline) #
     runListener after"
  using accept_loop_left [of before]
  by (auto simp: runListener_def accept_loop_append split: prod.splits)

theorem accept_error_logged_and_loop_continues_witness:
  "AcceptEOF \<notin> set [AcceptConn 1] \<and>
   runListener ([AcceptConn 1] @ AcceptErr ''too many open files'' # [AcceptConn 2]) =
     [GoHandleNewListenerConn 1,
      LogPrintf (''error accepting connection: too many open files'' @ newline),
      GoHandleNewListenerConn 2]"
  using accept_error_logged_and_loop_continues [of "[AcceptConn 1]" "''too many open files''" "[AcceptConn 2]"]
  by (simp add: runListener_def)

text \<open>
  The deferred shutdown is reached through \<open>break\<close> only, that is when \<open>Accept\<close> returns
  the error \<open>io.EOF\<close> itself: then \<open>runListener\<close> logs, sleeps 500 ms and calls
  \<open>DoShutdown\<close> with exit code 1, and not before.
\<close>

lemma eof_leaves_loop_with_exit_code_1:
  "exit_code (runListener results) = (if AcceptEOF \<in> set results then Some 1 else None) \<and>
   (AcceptEOF \<in> set results \<longrightarrow>
      (\<exists>evs. runListener results =
         evs @ [LogPrintf (''listener closed, exiting'' @ newline), TimeSleep 500, DoShutdown [] 1 True] \<and>
         exit_code evs = None))"
  using accept_loop_left [of results] accept_loop_no_exit [of results]
  by (auto simp: runListener_def exit_code_append split: prod.splits)




subsection \<open>The startup credential\<close>

text \<open>
  Claim C6: the connection context is read from the token without verification
  (\<open>ExtractUnverifiedRpcContext\<close>), but the route of the connserver client is registered
  only after \<open>router.HandleProxyAuth\<close> has returned without error on the same token:
  when it returns an error nothing is registered and the setup fails; a \<open>RegisterRoute\<close>
  in the trace comes after the \<open>HandleProxyAuth\<close> call and carries the route id that
  call returned.
\<close>

theorem route_registered_only_after_proxy_auth:
  "(isl (proxyAuth env (jwtTokenEnv env)) \<longrightarrow>
      registered (fst (setupConnServerRpcClientWithRouter env)) = [] \<and>
      isl (snd (setupConnServerRpcClientWithRouter env))) \<and>
   (RegisterRoute routeId dest isLocal \<in> set (fst (setupConnServerRpcClientWithRouter env)) \<longrightarrow>
      (\<exists>authToken rpcCtx pre post.
         proxyAuth env (jwtTokenEnv env) = Inr (routeId, authToken) \<and>
         extractRpcContext env (jwtTokenEnv env) = Inr rpcCtx \<and>
         fst (setupConnServerRpcClientWithRouter env) =
           ExtractUnverifiedRpcContext (jwtTokenEnv env) # HandleProxyAuth (jwtTokenEnv env) # post \<and>
         post = [MakeWshRpc rpcCtx, SetAuthToken authToken,
                 RegisterRoute routeId ConnServerClient False, RouteAnnounceCommand]))"
  by (auto simp: setupConnServerRpcClientWithRouter_def Let_def split: sum.splits prod.splits)

theorem route_registered_only_after_proxy_auth_witness:
  "isl (proxyAuth env_rejected (jwtTokenEnv env_rejected)) \<and>
   registered (fst (setupConnServerRpcClientWithRouter env_rejected)) = [] \<and>
   RegisterRoute ''route'' ConnServerClient False \<in> set (fst (setupConnServerRpcClientWithRouter env_valid)) \<and>
   proxyAuth env_valid (jwtTokenEnv env_valid) = Inr (''route'', ''auth'') \<and>
   fst (setupConnServerRpcClientWithRouter env_valid) =
     [ExtractUnverifiedRpcContext ''token'', HandleProxyAuth ''token'', MakeWshRpc \<lparr>Conn = ''conn''\<rparr>,
      SetAuthToken ''auth'', RegisterRoute ''route'' ConnServerClient False, RouteAnnounceCommand]"
  using route_registered_only_after_proxy_auth [of env_rejected "''route''" ConnServerClient False]
    route_registered_only_after_proxy_auth [of env_valid "''route''" ConnServerClient False]
  by (simp add: env_rejected_def env_valid_def setupConnServerRpcClientWithRouter_def Let_def)

text \<open>
  Claim C7: when the environment variable of the startup credential is unset (empty) or
  its token is invalid (the context cannot be extracted, or \<open>HandleProxyAuth\<close> refuses
  it), \<open>serverRunRouter\<close> returns an error, \<open>runListener\<close> is never started, and no route
  is registered.
\<close>

theorem startup_fails_without_valid_credential:
  "jwtTokenEnv env = [] \<or> isl (extractRpcContext env (jwtTokenEnv env)) \<or>
   isl (proxyAuth env (jwtTokenEnv env)) \<Longrightarrow>
   (\<exists>err. snd (serverRunRouter env) = ReturnErr err) \<and>
   (\<forall>l. Go (GoRunListener l) \<notin> set (fst (serverRunRouter env))) \<and>
   registered (fst (serverRunRouter env)) = []"
  by (auto simp: serverRunRouter_def setupConnServerRpcClientWithRouter_def
      MakeRemoteUnixListener_def Let_def split: sum.splits prod.splits)

theorem startup_fails_without_valid_credential_witness:
  "jwtTokenEnv env_no_token = [] \<and>
   snd (serverRunRouter env_no_token) =
     ReturnErr ''error setting up connserver rpc client: no jwt token found for connserver'' \<and>
   Go (GoRunListener 0) \<notin> set (fst (serverRunRouter env_no_token)) \<and>
   registered (fst (serverRunRouter env_no_token)) = []"
  using startup_fails_without_valid_credential [of env_no_token]
  by (simp add: env_no_token_def env_valid_def serverRunRouter_def
      setupConnServerRpcClientWithRouter_def MakeRemoteUnixListener_def Let_def)

subsection \<open>Standard input in router mode\<close>

lemma written_append: "written (xs @ ys) = written xs @ written ys"
  by (induction xs rule: written.induct) simp_all


lemma stdio_init_inv: "stdio_inv input toRemote (stdio_init input toRemote)"
  by (simp add: stdio_inv_def stdio_init_def)

lemma parse_step_inv: "exited s = None \<Longrightarrow> stdio_inv i t s \<Longrightarrow> stdio_inv i t (parse_step e s)"
  by (auto simp: stdio_inv_def parse_step_def split: list.splits chunk.splits)

lemma write_step_inv: "exited s = None \<Longrightarrow> stdio_inv i t s \<Longrightarrow> stdio_inv i t (write_step s)"
  by (auto simp: stdio_inv_def write_step_def injected_append written_append exit_code_append
      split: list.splits)

lemma drain_step_inv: "exited s = None \<Longrightarrow> stdio_inv i t s \<Longrightarrow> stdio_inv i t (drain_step s)"
  by (auto simp: stdio_inv_def drain_step_def injected_append written_append exit_code_append
      split: list.splits)

lemma inject_step_inv: "exited s = None \<Longrightarrow> stdio_inv i t s \<Longrightarrow> stdio_inv i t (inject_step s)"
  by (auto simp: stdio_inv_def inject_step_def injected_append written_append exit_code_append
      split: list.splits)

lemma stdio_step_inv: "stdio_inv i t s \<Longrightarrow> stdio_inv i t (stdio_step e th s)"
  by (cases th)
    (auto simp: stdio_step_def parse_step_inv write_step_inv drain_step_inv inject_step_inv)

lemma stdio_run_inv: "stdio_inv i t s \<Longrightarrow> stdio_inv i t (stdio_run e sched s)"
  by (induction sched arbitrary: s) (simp_all add: stdio_step_inv)

lemma stdio_run_append: "stdio_run e (xs @ ys) s = stdio_run e ys (stdio_run e xs s)"
  by (induction xs arbitrary: s) simp_all

lemma exited_run: "exited s \<noteq> None \<Longrightarrow> stdio_run e sched s = s"
  by (induction sched) (simp_all add: stdio_step_def)

lemma blanked_step: "blanked s s' \<Longrightarrow> blanked (stdio_step e th s) (stdio_step e th s')"
  by (cases th)
    (auto simp: blanked_def stdio_step_def parse_step_def write_step_def drain_step_def
      inject_step_def split: list.splits chunk.splits)

lemma blanked_run: "blanked s s' \<Longrightarrow> blanked (stdio_run e sched s) (stdio_run e sched s')"
  by (induction sched arbitrary: s s') (simp_all add: blanked_step)

lemma drain_to_exit:
  "closed s \<Longrightarrow> exited s = None \<Longrightarrow>
   exited (stdio_run e (replicate (Suc (length (rawCh s))) DrainRawCh) s) = Some 0"
proof (induction "rawCh s" arbitrary: s)
  case Nil
  then show ?case by (simp add: stdio_step_def drain_step_def)
next
  case (Cons b bs)
  let ?s = "stdio_step e DrainRawCh s"
  from Cons.hyps(2) Cons.prems have "bs = rawCh ?s" "closed ?s" "exited ?s = None"
    by (auto simp: stdio_step_def drain_step_def split: list.splits)
  from Cons.hyps(1) [OF this] Cons.hyps(2) [symmetric] \<open>bs = rawCh ?s\<close> [symmetric]
  show ?case by simp
qed

lemma round_robin_exit:
  assumes "0 < DefaultOutputChSize e" and "0 < FromRemoteChSize e"
  shows "rawCh s = [] \<Longrightarrow> FromRemoteCh s = [] \<Longrightarrow> \<not> closed s \<Longrightarrow> exited s = None \<Longrightarrow>
    exited (stdio_run e (concat (replicate (Suc (length (stdin s))) [Parse, InjectUpstream, DrainRawCh])) s) = Some 0"
proof (induction "stdin s" arbitrary: s)
  case Nil
  from Nil.hyps [symmetric] Nil.prems show ?case
    by (simp add: stdio_step_def parse_step_def inject_step_def drain_step_def)
next
  case (Cons c cs)
  let ?s = "stdio_run e [Parse, InjectUpstream, DrainRawCh] s"
  from Cons.hyps(2) [symmetric] Cons.prems assms
  have "cs = stdin ?s \<and> rawCh ?s = [] \<and> FromRemoteCh ?s = [] \<and> \<not> closed ?s \<and> exited ?s = None"
    by (cases c) (simp_all add: stdio_step_def parse_step_def inject_step_def drain_step_def)
  then have h: "cs = stdin ?s" "rawCh ?s = []" "FromRemoteCh ?s = []" "\<not> closed ?s"
      "exited ?s = None"
    by simp_all
  have "exited (stdio_run e (concat (replicate (Suc (length (stdin ?s))) [Parse, InjectUpstream, DrainRawCh])) ?s) = Some 0"
    by (rule Cons.hyps(1) [OF h])
  moreover have "length (stdin s) = Suc (length (stdin ?s))"
    using Cons.hyps(2) [symmetric] h(1) by simp
  ultimately show ?case
    by simp
qed

lemma prefix_of_append: "xs @ ys = zs \<Longrightarrow> \<exists>k. xs = take k zs"
  by (metis append_eq_conv_conj)

text \<open>
  Claim C5: in router mode, when standard input reaches its end, the process shuts down
  with exit code 0 and delivers no further message. Under every schedule: the
  process has not exited or has exited with code 0; when it has exited, the end of the
  stream had been reached, all raw bytes drained, \<open>DoShutdown("", 0, true)\<close> is the last
  call of the trace and the only \<open>DoShutdown\<close>, and whatever is scheduled later changes
  nothing; once the end of the stream has been reached, the steps of the draining
  goroutine alone lead to the exit with code 0; and with channels of capacity at least 1
  the round-robin schedule, one round more than there are chunks, reaches that exit.
\<close>

theorem stdin_end_of_stream_shuts_down_with_code_0:
  "(exited (stdio_run e sched (stdio_init input toRemote)) = None \<or>
    exited (stdio_run e sched (stdio_init input toRemote)) = Some 0) \<and>
   (exited (stdio_run e sched (stdio_init input toRemote)) \<noteq> None \<longrightarrow>
      closed (stdio_run e sched (stdio_init input toRemote)) \<and>
      stdin (stdio_run e sched (stdio_init input toRemote)) = [] \<and>
      rawCh (stdio_run e sched (stdio_init input toRemote)) = [] \<and>
      (\<exists>evs. calls (stdio_run e sched (stdio_init input toRemote)) = evs @ [DoShutdown [] 0 True] \<and>
         exit_code evs = None) \<and>
      stdio_run e (sched @ later) (stdio_init input toRemote) =
        stdio_run e sched (stdio_init input toRemote)) \<and>
   (closed (stdio_run e sched (stdio_init input toRemote)) \<and>
    exited (stdio_run e sched (stdio_init input toRemote)) = None \<longrightarrow>
      exited (stdio_run e
        (sched @ replicate (Suc (length (rawCh (stdio_run e sched (stdio_init input toRemote))))) DrainRawCh)
        (stdio_init input toRemote)) = Some 0) \<and>
   (0 < DefaultOutputChSize e \<and> 0 < FromRemoteChSize e \<longrightarrow>
      exited (stdio_run e (concat (replicate (Suc (length input)) [Parse, InjectUpstream, DrainRawCh]))
        (stdio_init input toRemote)) = Some 0)"
proof -
  let ?s = "stdio_run e sched (stdio_init input toRemote)"
  have inv: "stdio_inv input toRemote ?s"
    by (rule stdio_run_inv [OF stdio_init_inv])
  have a: "exited ?s = None \<or> exited ?s = Some 0"
    using inv by (auto simp: stdio_inv_def split: option.splits)
  have b: "closed ?s \<and> stdin ?s = [] \<and> rawCh ?s = [] \<and>
      (\<exists>evs. calls ?s = evs @ [DoShutdown [] 0 True] \<and> exit_code evs = None) \<and>
      stdio_run e (sched @ later) (stdio_init input toRemote) = ?s"
    if "exited ?s \<noteq> None"
    using inv that exited_run [OF that, of e later]
    by (auto simp: stdio_inv_def stdio_run_append split: option.splits if_splits)
  have c: "exited (stdio_run e (sched @ replicate (Suc (length (rawCh ?s))) DrainRawCh)
      (stdio_init input toRemote)) = Some 0"
    if "closed ?s \<and> exited ?s = None"
    using drain_to_exit [of ?s e] that by (simp add: stdio_run_append)
  have d: "exited (stdio_run e (concat (replicate (Suc (length input)) [Parse, InjectUpstream, DrainRawCh]))
      (stdio_init input toRemote)) = Some 0"
    if "0 < DefaultOutputChSize e \<and> 0 < FromRemoteChSize e"
    using round_robin_exit [of e "stdio_init input toRemote"] that
    by (simp add: stdio_init_def)
  from a b c d show ?thesis by blast
qed

theorem stdin_end_of_stream_shuts_down_with_code_0_witness:
  "0 < DefaultOutputChSize \<lparr>DefaultOutputChSize = 1, FromRemoteChSize = 1\<rparr> \<and>
   0 < FromRemoteChSize \<lparr>DefaultOutputChSize = 1, FromRemoteChSize = 1\<rparr> \<and>
   exited (stdio_run \<lparr>DefaultOutputChSize = 1, FromRemoteChSize = 1\<rparr>
     [Parse, Parse, Parse, InjectUpstream, DrainRawCh, DrainRawCh] (stdio_init [Packet ''p'', Raw ''r''] [])) = Some 0 \<and>
   calls (stdio_run \<lparr>DefaultOutputChSize = 1, FromRemoteChSize = 1\<rparr>
     ([Parse, Parse, Parse, InjectUpstream, DrainRawCh, DrainRawCh] @ [InjectUpstream, Parse]) (stdio_init [Packet ''p'', Raw ''r''] [])) =
     [InjectMessage (Bytes ''p'') UpstreamRoute, DoShutdown [] 0 True] \<and>
   closed (stdio_run \<lparr>DefaultOutputChSize = 1, FromRemoteChSize = 1\<rparr>
     [Parse, Parse, Parse] (stdio_init [Packet ''p'', Raw ''r''] [])) \<and>
   exited (stdio_run \<lparr>DefaultOutputChSize = 1, FromRemoteChSize = 1\<rparr>
     [Parse, Parse, Parse] (stdio_init [Packet ''p'', Raw ''r''] [])) = None \<and>
   exited (stdio_run \<lparr>DefaultOutputChSize = 1, FromRemoteChSize = 1\<rparr>
     ([Parse, Parse, Parse] @ [DrainRawCh, DrainRawCh]) (stdio_init [Packet ''p'', Raw ''r''] [])) = Some 0"
  using stdin_end_of_stream_shuts_down_with_code_0 [of "\<lparr>DefaultOutputChSize = 1, FromRemoteChSize = 1\<rparr>"
      "[Parse, Parse, Parse, InjectUpstream, DrainRawCh, DrainRawCh]" "[Packet ''p'', Raw ''r'']" "[]"
      "[InjectUpstream, Parse]"]
    stdin_end_of_stream_shuts_down_with_code_0 [of "\<lparr>DefaultOutputChSize = 1, FromRemoteChSize = 1\<rparr>"
      "[Parse, Parse, Parse]" "[Packet ''p'', Raw ''r'']" "[]" "[]"]
  by (simp add: stdio_init_def stdio_step_def parse_step_def inject_step_def drain_step_def
      write_step_def)

lemma round_robin_drained:
  assumes "0 < DefaultOutputChSize e" and "0 < FromRemoteChSize e"
  shows "rawCh s = [] \<Longrightarrow> FromRemoteCh s = [] \<Longrightarrow> \<not> closed s \<Longrightarrow> exited s = None \<Longrightarrow>
    FromRemoteCh (stdio_run e (concat (replicate (Suc (length (stdin s))) [Parse, InjectUpstream, DrainRawCh])) s) = []"
proof (induction "stdin s" arbitrary: s)
  case Nil
  from Nil.hyps [symmetric] Nil.prems show ?case
    by (simp add: stdio_step_def parse_step_def inject_step_def drain_step_def)
next
  case (Cons c cs)
  let ?s = "stdio_run e [Parse, InjectUpstream, DrainRawCh] s"
  from Cons.hyps(2) [symmetric] Cons.prems assms
  have "cs = stdin ?s \<and> rawCh ?s = [] \<and> FromRemoteCh ?s = [] \<and> \<not> closed ?s \<and> exited ?s = None"
    by (cases c) (simp_all add: stdio_step_def parse_step_def inject_step_def drain_step_def)
  then have h: "cs = stdin ?s" "rawCh ?s = []" "FromRemoteCh ?s = []" "\<not> closed ?s"
      "exited ?s = None"
    by simp_all
  have "FromRemoteCh (stdio_run e (concat (replicate (Suc (length (stdin ?s))) [Parse, InjectUpstream, DrainRawCh])) ?s) = []"
    by (rule Cons.hyps(1) [OF h])
  moreover have "length (stdin s) = Suc (length (stdin ?s))"
    using Cons.hyps(2) [symmetric] h(1) by simp
  ultimately show ?case
    by simp
qed

lemma round_robin_all_injected:
  assumes "0 < DefaultOutputChSize e" and "0 < FromRemoteChSize e"
  shows "injected (calls (stdio_run e (concat (replicate (Suc (length input)) [Parse, InjectUpstream, DrainRawCh]))
           (stdio_init input toRemote))) =
         map (\<lambda>msg. (Bytes msg, UpstreamRoute)) (packets input)"
proof -
  let ?s = "stdio_run e (concat (replicate (Suc (length input)) [Parse, InjectUpstream, DrainRawCh]))
      (stdio_init input toRemote)"
  have inv: "stdio_inv input toRemote ?s"
    by (rule stdio_run_inv [OF stdio_init_inv])
  have ex: "exited ?s = Some 0"
    using round_robin_exit [OF assms, of "stdio_init input toRemote"] by (simp add: stdio_init_def)
  have fr: "FromRemoteCh ?s = []"
    using round_robin_drained [OF assms, of "stdio_init input toRemote"] by (simp add: stdio_init_def)
  from inv ex have "stdin ?s = []"
    by (auto simp: stdio_inv_def split: if_splits)
  with inv fr show ?thesis
    by (simp add: stdio_inv_def)
qed

text \<open>
  Claim C3, as amended: in router mode the non-packet bytes received on standard input
  are drained from \<open>rawCh\<close> and discarded, and only the framed packets are passed on to
  the Router. Under every schedule the trace is the same whatever the raw chunks
  contain; the messages injected into the Router are, in order, the first packets of
  the input, each under the upstream route; what is written to standard output are, in
  order, the first messages of \<open>ToRemoteCh\<close>; the trace holds nothing else but the final
  \<open>DoShutdown\<close>; and no packet is lost on the way: the packets injected, those waiting
  in \<open>FromRemoteCh\<close> and those not yet read are, in order, the packets of the input.
  With channels of capacity at least 1 the round-robin schedule, one round more than
  there are chunks, injects every packet of the input.
\<close>

theorem raw_bytes_discarded_packets_forwarded:
  "calls (stdio_run e sched (stdio_init (map blank input) toRemote)) =
     calls (stdio_run e sched (stdio_init input toRemote)) \<and>
   (\<exists>k. injected (calls (stdio_run e sched (stdio_init input toRemote))) =
      map (\<lambda>msg. (Bytes msg, UpstreamRoute)) (take k (packets input))) \<and>
   (\<exists>k. written (calls (stdio_run e sched (stdio_init input toRemote))) = take k toRemote) \<and>
   length (calls (stdio_run e sched (stdio_init input toRemote))) =
     length (injected (calls (stdio_run e sched (stdio_init input toRemote)))) +
     length (written (calls (stdio_run e sched (stdio_init input toRemote)))) +
     (case exited (stdio_run e sched (stdio_init input toRemote)) of None \<Rightarrow> 0 | Some c \<Rightarrow> 1) \<and>
   injected (calls (stdio_run e sched (stdio_init input toRemote))) @
     map (\<lambda>msg. (Bytes msg, UpstreamRoute))
       (FromRemoteCh (stdio_run e sched (stdio_init input toRemote)) @
        packets (stdin (stdio_run e sched (stdio_init input toRemote)))) =
     map (\<lambda>msg. (Bytes msg, UpstreamRoute)) (packets input) \<and>
   (0 < DefaultOutputChSize e \<and> 0 < FromRemoteChSize e \<longrightarrow>
      injected (calls (stdio_run e (concat (replicate (Suc (length input)) [Parse, InjectUpstream, DrainRawCh]))
        (stdio_init input toRemote))) =
      map (\<lambda>msg. (Bytes msg, UpstreamRoute)) (packets input))"
proof -
  let ?s = "stdio_run e sched (stdio_init input toRemote)"
  have "blanked (stdio_init input toRemote) (stdio_init (map blank input) toRemote)"
    by (simp add: blanked_def stdio_init_def)
  then have "blanked ?s (stdio_run e sched (stdio_init (map blank input) toRemote))"
    by (rule blanked_run)
  then have a: "calls (stdio_run e sched (stdio_init (map blank input) toRemote)) = calls ?s"
    by (simp add: blanked_def)
  have inv: "stdio_inv input toRemote ?s"
    by (rule stdio_run_inv [OF stdio_init_inv])
  then have "\<exists>k. injected (calls ?s) = take k (map (\<lambda>msg. (Bytes msg, UpstreamRoute)) (packets input))"
    unfolding stdio_inv_def by (blast intro: prefix_of_append)
  then have b: "\<exists>k. injected (calls ?s) = map (\<lambda>msg. (Bytes msg, UpstreamRoute)) (take k (packets input))"
    by (simp add: take_map)
  from inv have c: "\<exists>k. written (calls ?s) = take k toRemote"
    unfolding stdio_inv_def by (blast intro: prefix_of_append)
  from inv have d: "length (calls ?s) = length (injected (calls ?s)) + length (written (calls ?s)) +
      (case exited ?s of None \<Rightarrow> 0 | Some c \<Rightarrow> 1)"
    by (simp add: stdio_inv_def)
  from inv have f: "injected (calls ?s) @
      map (\<lambda>msg. (Bytes msg, UpstreamRoute)) (FromRemoteCh ?s @ packets (stdin ?s)) =
      map (\<lambda>msg. (Bytes msg, UpstreamRoute)) (packets input)"
    by (simp add: stdio_inv_def)
  have g: "injected (calls (stdio_run e (concat (replicate (Suc (length input)) [Parse, InjectUpstream, DrainRawCh]))
        (stdio_init input toRemote))) =
      map (\<lambda>msg. (Bytes msg, UpstreamRoute)) (packets input)"
    if "0 < DefaultOutputChSize e \<and> 0 < FromRemoteChSize e"
    using round_robin_all_injected [of e input toRemote] that by simp
  from a b c d f g show ?thesis by blast
qed

theorem raw_bytes_discarded_packets_forwarded_witness:
  "0 < DefaultOutputChSize \<lparr>DefaultOutputChSize = 1, FromRemoteChSize = 1\<rparr> \<and>
   0 < FromRemoteChSize \<lparr>DefaultOutputChSize = 1, FromRemoteChSize = 1\<rparr> \<and>
   injected (calls (stdio_run \<lparr>DefaultOutputChSize = 1, FromRemoteChSize = 1\<rparr>
      (concat (replicate (Suc (length [Packet ''p'', Raw ''r'', Packet ''q''])) [Parse, InjectUpstream, DrainRawCh]))
      (stdio_init [Packet ''p'', Raw ''r'', Packet ''q''] []))) =
     [(Bytes ''p'', UpstreamRoute), (Bytes ''q'', UpstreamRoute)]"
  using raw_bytes_discarded_packets_forwarded [of "\<lparr>DefaultOutputChSize = 1, FromRemoteChSize = 1\<rparr>"
      "[]" "[Packet ''p'', Raw ''r'', Packet ''q'']" "[]"]
  by simp

text \<open>
  Claim C3 as stated has the non-packet bytes reproduced byte for byte. With the raw
  bytes \<open>hi\<close> on standard input and nothing else, the input is read to its end, the raw
  channel is drained, and the only call the process has made is \<open>DoShutdown\<close>: the bytes
  are written nowhere.
\<close>

theorem raw_bytes_not_passed_through:
  "stdin (stdio_run \<lparr>DefaultOutputChSize = 32, FromRemoteChSize = 32\<rparr>
     [Parse, DrainRawCh, Parse, DrainRawCh] (stdio_init [Raw ''hi''] [])) = [] \<and>
   rawCh (stdio_run \<lparr>DefaultOutputChSize = 32, FromRemoteChSize = 32\<rparr>
     [Parse, DrainRawCh, Parse, DrainRawCh] (stdio_init [Raw ''hi''] [])) = [] \<and>
   calls (stdio_run \<lparr>DefaultOutputChSize = 32, FromRemoteChSize = 32\<rparr>
     [Parse, DrainRawCh, Parse, DrainRawCh] (stdio_init [Raw ''hi''] [])) = [DoShutdown [] 0 True]"
  by (simp add: stdio_init_def stdio_step_def parse_step_def drain_step_def)

end
